theory Spec2Isabelle
  imports Complex_Main
begin

section \<open>The dataset graph packager of \<^verbatim>\<open>mindspore/train/callback/_dataset_graph.py\<close>\<close>

text \<open>
  The class \<^verbatim>\<open>DatasetGraph\<close> walks the dictionary that \<^verbatim>\<open>json.loads\<close> returns for a
  serialized dataset pipeline and fills a \<^verbatim>\<open>lineage_pb2.DatasetGraph\<close> message.
  The embedding starts at the value of \<^verbatim>\<open>dataset_dict\<close> after line 37 (the serializer and
  the JSON round trip are library calls) and follows lines 38 to 128.
\<close>

subsection \<open>Python values after \<^verbatim>\<open>json.loads\<close>\<close>

text \<open>
  A Python float is a finite number, an infinity or a NaN (\<^verbatim>\<open>json.loads\<close> accepts all of
  them). The packager never computes with a float: it tests its type and its truth value.
\<close>

datatype pyfloat = Finite real | PosInf | NegInf | NaN

text \<open>
  The values \<^verbatim>\<open>json.loads\<close> produces. A dict keeps its insertion order, so it is an
  association list; Python guarantees that its keys are distinct. One \<open>char\<close> of a
  string stands for one code point.
\<close>

datatype json =
    JNull
  | JBool (bool_of: bool)
  | JInt (int_of: int)
  | JFloat (float_of: pyfloat)
  | JStr (str_of: string)
  | JList (list_of: "json list")
  | JDict (dict_of: "(string \<times> json) list")

text \<open>The exceptions that lines 38 to 128 can raise.\<close>

datatype py_error =
    ValueError string
  | KeyError string
  | AttributeError
  | TypeError

text \<open>Python's truth value (\<^verbatim>\<open>if value:\<close>).\<close>

fun truthy :: "json \<Rightarrow> bool" where
  "truthy JNull = False"
| "truthy (JBool b) = b"
| "truthy (JInt i) = (i \<noteq> 0)"
| "truthy (JFloat (Finite r)) = (r \<noteq> 0)"
| "truthy (JFloat PosInf) = True"
| "truthy (JFloat NegInf) = True"
| "truthy (JFloat NaN) = True"
| "truthy (JStr s) = (s \<noteq> [])"
| "truthy (JList xs) = (xs \<noteq> [])"
| "truthy (JDict kvs) = (kvs \<noteq> [])"

text \<open>
  \<^verbatim>\<open>isinstance\<close>. In Python \<^verbatim>\<open>bool\<close> is a subclass of \<^verbatim>\<open>int\<close>, so
  \<^verbatim>\<open>isinstance(True, int)\<close> holds.
\<close>

fun isinstance_str :: "json \<Rightarrow> bool" where
  "isinstance_str (JStr s) = True"
| "isinstance_str v = False"

fun isinstance_bool :: "json \<Rightarrow> bool" where
  "isinstance_bool (JBool b) = True"
| "isinstance_bool v = False"

fun isinstance_int :: "json \<Rightarrow> bool" where
  "isinstance_int (JInt i) = True"
| "isinstance_int (JBool b) = True"
| "isinstance_int v = False"

fun isinstance_float :: "json \<Rightarrow> bool" where
  "isinstance_float (JFloat f) = True"
| "isinstance_float v = False"

fun isinstance_list :: "json \<Rightarrow> bool" where
  "isinstance_list (JList xs) = True"
| "isinstance_list v = False"

fun isinstance_dict :: "json \<Rightarrow> bool" where
  "isinstance_dict (JDict kvs) = True"
| "isinstance_dict v = False"

text \<open>
  What a \<^verbatim>\<open>for\<close> loop iterates over: the elements of a list, the characters of a string,
  the keys of a dict; any other value raises \<^verbatim>\<open>TypeError\<close> (not iterable).
\<close>

fun py_iter :: "json \<Rightarrow> py_error + json list" where
  "py_iter (JList xs) = Inr xs"
| "py_iter (JStr s) = Inr (map (\<lambda>c. JStr [c]) s)"
| "py_iter (JDict kvs) = Inr (map (\<lambda>kv. JStr (fst kv)) kvs)"
| "py_iter v = Inl TypeError"

text \<open>\<^verbatim>\<open>value.items()\<close>: only a dict has the method.\<close>

fun py_items :: "json \<Rightarrow> py_error + (string \<times> json) list" where
  "py_items (JDict kvs) = Inr kvs"
| "py_items v = Inl AttributeError"

text \<open>\<^verbatim>\<open>d.pop(key)\<close> on a dict: the value and the dict without the key.\<close>

definition dict_remove :: "string \<Rightarrow> (string \<times> json) list \<Rightarrow> (string \<times> json) list" where
  "dict_remove key kvs = filter (\<lambda>kv. fst kv \<noteq> key) kvs"

text \<open>
  \<^verbatim>\<open>child.pop("children")\<close> on any value: a dict without the key raises \<^verbatim>\<open>KeyError\<close>,
  a list raises \<^verbatim>\<open>TypeError\<close> (its \<^verbatim>\<open>pop\<close> wants an index), and the other types have no
  \<^verbatim>\<open>pop\<close>.
\<close>

fun py_pop :: "json \<Rightarrow> string \<Rightarrow> py_error + (json \<times> (string \<times> json) list)" where
  "py_pop (JDict kvs) key =
     (case map_of kvs key of
        None \<Rightarrow> Inl (KeyError key)
      | Some v \<Rightarrow> Inr (v, dict_remove key kvs))"
| "py_pop (JList xs) key = Inl TypeError"
| "py_pop v key = Inl AttributeError"

subsection \<open>The messages of \<^verbatim>\<open>lineage_pb2\<close>\<close>

text \<open>
  Modelled from the spec: the message classes of \<^verbatim>\<open>lineage_pb2\<close> (generated code, not
  among the sources). The output contract gives, per node, repeated child nodes, a
  parameter block of five independently keyed maps (string, boolean, integer, double,
  string list), repeated operation sub-messages (each with its own parameter block, an
  integer list \<open>size\<close> and a real list \<open>weights\<close>) and an optional sampler of the same
  shape. A repeated field holds the elements the packager hands to \<^verbatim>\<open>extend\<close>, as Python
  values: the type checks of the message library are not part of the packager.
\<close>

record operation_parameter =
  mapStr :: "string \<rightharpoonup> string"
  mapBool :: "string \<rightharpoonup> bool"
  mapInt :: "string \<rightharpoonup> int"
  mapDouble :: "string \<rightharpoonup> pyfloat"
  mapStrList :: "string \<rightharpoonup> json list"

record operation =
  operationParam :: operation_parameter
  size_field :: "json list"
  weights :: "json list"

datatype dataset_graph =
  DatasetGraph
    (children: "dataset_graph list")
    (parameter: operation_parameter)
    (operations: "operation list")
    (sampler: "operation option")

definition empty_parameter :: operation_parameter where
  "empty_parameter =
     \<lparr>mapStr = Map.empty, mapBool = Map.empty, mapInt = Map.empty,
      mapDouble = Map.empty, mapStrList = Map.empty\<rparr>"

definition empty_operation :: operation where
  "empty_operation = \<lparr>operationParam = empty_parameter, size_field = [], weights = []\<rparr>"

definition empty_graph :: dataset_graph where
  "empty_graph = DatasetGraph [] empty_parameter [] None"

text \<open>Reading \<^verbatim>\<open>message.sampler\<close> gives the sub-message, empty while it is unset.\<close>

definition sampler_message :: "dataset_graph \<Rightarrow> operation" where
  "sampler_message g = (case sampler g of None \<Rightarrow> empty_operation | Some s \<Rightarrow> s)"

definition add_child :: "dataset_graph \<Rightarrow> dataset_graph \<Rightarrow> dataset_graph" where
  "add_child c g = DatasetGraph (children g @ [c]) (parameter g) (operations g) (sampler g)"

definition set_parameter :: "operation_parameter \<Rightarrow> dataset_graph \<Rightarrow> dataset_graph" where
  "set_parameter p g = DatasetGraph (children g) p (operations g) (sampler g)"

definition add_operation :: "operation \<Rightarrow> dataset_graph \<Rightarrow> dataset_graph" where
  "add_operation x g = DatasetGraph (children g) (parameter g) (operations g @ [x]) (sampler g)"

definition set_sampler :: "operation \<Rightarrow> dataset_graph \<Rightarrow> dataset_graph" where
  "set_sampler s g = DatasetGraph (children g) (parameter g) (operations g) (Some s)"

subsection \<open>\<^verbatim>\<open>_package_parameter\<close> (lines 104 to 128)\<close>

definition unsupported :: "string \<Rightarrow> py_error" where
  "unsupported key = ValueError (''Parameter '' @ key @ '' is not supported in event package.'')"

text \<open>Line 123: \<^verbatim>\<open>"" if x is None else x\<close>.\<close>

definition replace_none :: "json \<Rightarrow> json" where
  "replace_none x = (if x = JNull then JStr [] else x)"

text \<open>
  \<^verbatim>\<open>message.mapStrList[key].strValue.extend(xs)\<close>: the entry is created empty when it is
  missing, then extended.
\<close>

definition extend_str_list ::
  "string \<Rightarrow> json list \<Rightarrow> (string \<rightharpoonup> json list) \<Rightarrow> (string \<rightharpoonup> json list)" where
  "extend_str_list key xs m =
     m(key \<mapsto> (case m key of None \<Rightarrow> [] | Some old \<Rightarrow> old) @ xs)"

definition package_parameter ::
  "string \<Rightarrow> json \<Rightarrow> operation_parameter \<Rightarrow> py_error + operation_parameter" where
  "package_parameter key val message =
     (if isinstance_str val then
        Inr (message\<lparr>mapStr := (mapStr message)(key \<mapsto> str_of val)\<rparr>)
      else if isinstance_bool val then
        Inr (message\<lparr>mapBool := (mapBool message)(key \<mapsto> bool_of val)\<rparr>)
      else if isinstance_int val then
        Inr (message\<lparr>mapInt := (mapInt message)(key \<mapsto> int_of val)\<rparr>)
      else if isinstance_float val then
        Inr (message\<lparr>mapDouble := (mapDouble message)(key \<mapsto> float_of val)\<rparr>)
      else if isinstance_list val \<and> key \<noteq> ''operations'' then
        (if truthy val then
           Inr (message\<lparr>mapStrList :=
                  extend_str_list key (map replace_none (list_of val)) (mapStrList message)\<rparr>)
         else Inr message)
      else if val = JNull then
        Inr (message\<lparr>mapStr := (mapStr message)(key \<mapsto> ''None'')\<rparr>)
      else Inl (unsupported key))"

subsection \<open>\<^verbatim>\<open>_package_enhancement_operation\<close> (lines 86 to 101)\<close>

text \<open>The loop of lines 94 to 101 over the items of the operation.\<close>

fun package_enhancement_items ::
  "(string \<times> json) list \<Rightarrow> operation \<Rightarrow> py_error + operation" where
  "package_enhancement_items [] message = Inr message"
| "package_enhancement_items ((key, val) # rest) message =
     (if isinstance_list val then
        (if list_all isinstance_int (list_of val) then
           package_enhancement_items rest
             (message\<lparr>size_field := size_field message @ list_of val\<rparr>)
         else
           package_enhancement_items rest
             (message\<lparr>weights := weights message @ list_of val\<rparr>))
      else
        (case package_parameter key val (operationParam message) of
           Inl e \<Rightarrow> Inl e
         | Inr p \<Rightarrow> package_enhancement_items rest (message\<lparr>operationParam := p\<rparr>)))"

definition package_enhancement_operation :: "json \<Rightarrow> operation \<Rightarrow> py_error + operation" where
  "package_enhancement_operation operation message =
     (case py_items operation of
        Inl e \<Rightarrow> Inl e
      | Inr items \<Rightarrow> package_enhancement_items items message)"

subsection \<open>\<^verbatim>\<open>_package_current_dataset\<close> (lines 63 to 84)\<close>

text \<open>
  The inner loop of lines 73 to 77: \<^verbatim>\<open>message.operations.add()\<close> appends an empty
  operation, which the call then fills.
\<close>

fun package_operators :: "json list \<Rightarrow> dataset_graph \<Rightarrow> py_error + dataset_graph" where
  "package_operators [] message = Inr message"
| "package_operators (operator # rest) message =
     (case package_enhancement_operation operator empty_operation of
        Inl e \<Rightarrow> Inl e
      | Inr x \<Rightarrow> package_operators rest (add_operation x message))"

text \<open>
  The loop of lines 71 to 84; the argument is the node's dict, as the list of its items.
\<close>

fun package_current_dataset ::
  "(string \<times> json) list \<Rightarrow> dataset_graph \<Rightarrow> py_error + dataset_graph" where
  "package_current_dataset [] message = Inr message"
| "package_current_dataset ((key, val) # rest) message =
     (if truthy val \<and> key = ''operations'' then
        (case py_iter val of
           Inl e \<Rightarrow> Inl e
         | Inr operators \<Rightarrow>
             (case package_operators operators message of
                Inl e \<Rightarrow> Inl e
              | Inr message' \<Rightarrow> package_current_dataset rest message'))
      else if truthy val \<and> key = ''sampler'' then
        (case package_enhancement_operation val (sampler_message message) of
           Inl e \<Rightarrow> Inl e
         | Inr s \<Rightarrow> package_current_dataset rest (set_sampler s message))
      else
        (case package_parameter key val (parameter message) of
           Inl e \<Rightarrow> Inl e
         | Inr p \<Rightarrow> package_current_dataset rest (set_parameter p message)))"

subsection \<open>\<^verbatim>\<open>_package_children\<close> (lines 46 to 61)\<close>

text \<open>
  The recursion goes into the value popped from a child, so it is not structural. The
  weight counts the lists and dicts of a value; a popped value weighs less than the dict
  it came from, and the values a loop iterates over weigh no more than the iterated one.
\<close>

fun weight :: "json \<Rightarrow> nat" where
  "weight (JList xs) = Suc (sum_list (map weight xs))"
| "weight (JDict kvs) = Suc (sum_list (map (\<lambda>kv. weight (snd kv)) kvs))"
| "weight v = 0"

function package_children :: "json list \<Rightarrow> dataset_graph \<Rightarrow> py_error + dataset_graph" where
  "package_children [] message = Inr message"
| "package_children (child # rest) message =
     (if truthy child then
        (case py_pop child ''children'' of
           Inl e \<Rightarrow> Inl e
         | Inr (grandson, child') \<Rightarrow>
             (case (if truthy grandson then
                      (case py_iter grandson of
                         Inl e \<Rightarrow> Inl e
                       | Inr grandsons \<Rightarrow> package_children grandsons empty_graph)
                    else Inr empty_graph) of
                Inl e \<Rightarrow> Inl e
              | Inr child_graph_message \<Rightarrow>
                  (case package_current_dataset child' child_graph_message of
                     Inl e \<Rightarrow> Inl e
                   | Inr child_graph_message' \<Rightarrow>
                       package_children rest (add_child child_graph_message' message))))
      else package_children rest message)"
  by pat_completeness auto
termination
proof (relation "(\<lambda>p. sum_list (map weight (fst p))) <*mlex*> measure (\<lambda>p. length (fst p))")
  show "wf ((\<lambda>p. sum_list (map weight (fst p))) <*mlex*> measure (\<lambda>p. length (fst p)))"
    by (simp add: wf_mlex)
next
  fix child rest message popped grandson child' grandsons
  assume pop: "py_pop child ''children'' = Inr popped" "(grandson, child') = popped"
    and iter: "py_iter grandson = Inr grandsons"
  have in_dict: "map_of kvs key = Some v \<Longrightarrow>
      weight v \<le> sum_list (map (\<lambda>kv. weight (snd kv)) kvs)" for kvs key v
    by (induction kvs) (auto split: if_splits)
  have "weight grandson < weight child"
    using pop by (cases child) (auto split: option.splits dest: in_dict)
  moreover have "sum_list (map weight grandsons) \<le> weight grandson"
    using iter by (cases grandson) (auto simp: o_def)
  ultimately show "((grandsons, empty_graph), child # rest, message)
       \<in> (\<lambda>p. sum_list (map weight (fst p))) <*mlex*> measure (\<lambda>p. length (fst p))"
    by (simp add: mlex_iff)
qed (auto simp add: mlex_iff)

subsection \<open>\<^verbatim>\<open>package_dataset_graph\<close> (lines 38 to 44)\<close>

text \<open>
  The argument is \<^verbatim>\<open>dataset_dict\<close> as \<^verbatim>\<open>json.loads\<close> returned it (the serializer returns a
  dict). Line 43 is inside the \<^verbatim>\<open>if\<close> of line 39.
\<close>

definition package_dataset_graph :: "(string \<times> json) list \<Rightarrow> py_error + dataset_graph" where
  "package_dataset_graph dataset_dict =
     (case map_of dataset_dict ''children'' of
        None \<Rightarrow> Inr empty_graph
      | Some children_value \<Rightarrow>
          (case (if truthy children_value then
                   (case py_iter children_value of
                      Inl e \<Rightarrow> Inl e
                    | Inr child_list \<Rightarrow> package_children child_list empty_graph)
                 else Inr empty_graph) of
             Inl e \<Rightarrow> Inl e
           | Inr dataset_graph_proto \<Rightarrow>
               package_current_dataset (dict_remove ''children'' dataset_dict)
                 dataset_graph_proto))"

subsection \<open>The body of the loop over the children, and the handling of a \<^verbatim>\<open>"children"\<close> value\<close>

text \<open>
  Lines 56 to 61 for one truthy child: what \<^verbatim>\<open>child_graph_message\<close> holds when the
  iteration ends.
\<close>

definition package_child :: "json \<Rightarrow> py_error + dataset_graph" where
  "package_child child =
     (case py_pop child ''children'' of
        Inl e \<Rightarrow> Inl e
      | Inr (grandson, child') \<Rightarrow>
          (case (if truthy grandson then
                   (case py_iter grandson of
                      Inl e \<Rightarrow> Inl e
                    | Inr grandsons \<Rightarrow> package_children grandsons empty_graph)
                 else Inr empty_graph) of
             Inl e \<Rightarrow> Inl e
           | Inr child_graph_message \<Rightarrow> package_current_dataset child' child_graph_message))"

text \<open>
  Lines 41 and 42, and lines 58 and 59: a truthy value is walked into a new message, a
  falsy one leaves the new message empty.
\<close>

definition package_children_of :: "json \<Rightarrow> py_error + dataset_graph" where
  "package_children_of children_value =
     (if truthy children_value then
        (case py_iter children_value of
           Inl e \<Rightarrow> Inl e
         | Inr child_list \<Rightarrow> package_children child_list empty_graph)
      else Inr empty_graph)"

subsection \<open>The walk with its effect on the dicts\<close>

text \<open>
  \<^verbatim>\<open>pop\<close> changes the dict it is called on. The functions below are the same lines 38
  to 61, returning also the final value of the object they were given: the list of
  children with its elements as the walk left them, and \<^verbatim>\<open>dataset_dict\<close>. The structure
  that \<^verbatim>\<open>json.loads\<close> builds is a tree (no object occurs in it twice), so the final value
  of an object can be returned next to the message. A popped value is no longer part of the
  dict it came from.
\<close>

function package_children_st ::
  "json list \<Rightarrow> dataset_graph \<Rightarrow> py_error + (json list \<times> dataset_graph)" where
  "package_children_st [] message = Inr ([], message)"
| "package_children_st (child # rest) message =
     (if truthy child then
        (case py_pop child ''children'' of
           Inl e \<Rightarrow> Inl e
         | Inr (grandson, child') \<Rightarrow>
             (case (if truthy grandson then
                      (case py_iter grandson of
                         Inl e \<Rightarrow> Inl e
                       | Inr grandsons \<Rightarrow>
                           (case package_children_st grandsons empty_graph of
                              Inl e \<Rightarrow> Inl e
                            | Inr (grandsons', child_graph_message) \<Rightarrow> Inr child_graph_message))
                    else Inr empty_graph) of
                Inl e \<Rightarrow> Inl e
              | Inr child_graph_message \<Rightarrow>
                  (case package_current_dataset child' child_graph_message of
                     Inl e \<Rightarrow> Inl e
                   | Inr child_graph_message' \<Rightarrow>
                       (case package_children_st rest (add_child child_graph_message' message) of
                          Inl e \<Rightarrow> Inl e
                        | Inr (rest', message') \<Rightarrow> Inr (JDict child' # rest', message')))))
      else
        (case package_children_st rest message of
           Inl e \<Rightarrow> Inl e
         | Inr (rest', message') \<Rightarrow> Inr (child # rest', message')))"
  by pat_completeness auto
termination
proof (relation "(\<lambda>p. sum_list (map weight (fst p))) <*mlex*> measure (\<lambda>p. length (fst p))")
  show "wf ((\<lambda>p. sum_list (map weight (fst p))) <*mlex*> measure (\<lambda>p. length (fst p)))"
    by (simp add: wf_mlex)
next
  fix child rest message popped grandson child' grandsons
  assume pop: "py_pop child ''children'' = Inr popped" "(grandson, child') = popped"
    and iter: "py_iter grandson = Inr grandsons"
  have in_dict: "map_of kvs key = Some v \<Longrightarrow>
      weight v \<le> sum_list (map (\<lambda>kv. weight (snd kv)) kvs)" for kvs key v
    by (induction kvs) (auto split: if_splits)
  have "weight grandson < weight child"
    using pop by (cases child) (auto split: option.splits dest: in_dict)
  moreover have "sum_list (map weight grandsons) \<le> weight grandson"
    using iter by (cases grandson) (auto simp: o_def)
  ultimately show "((grandsons, empty_graph), child # rest, message)
       \<in> (\<lambda>p. sum_list (map weight (fst p))) <*mlex*> measure (\<lambda>p. length (fst p))"
    by (simp add: mlex_iff)
qed (auto simp add: mlex_iff)

definition package_dataset_graph_st ::
  "(string \<times> json) list \<Rightarrow> py_error + ((string \<times> json) list \<times> dataset_graph)" where
  "package_dataset_graph_st dataset_dict =
     (case map_of dataset_dict ''children'' of
        None \<Rightarrow> Inr (dataset_dict, empty_graph)
      | Some children_value \<Rightarrow>
          (case (if truthy children_value then
                   (case py_iter children_value of
                      Inl e \<Rightarrow> Inl e
                    | Inr child_list \<Rightarrow>
                        (case package_children_st child_list empty_graph of
                           Inl e \<Rightarrow> Inl e
                         | Inr (child_list', dataset_graph_proto) \<Rightarrow> Inr dataset_graph_proto))
                 else Inr empty_graph) of
             Inl e \<Rightarrow> Inl e
           | Inr dataset_graph_proto \<Rightarrow>
               (case package_current_dataset (dict_remove ''children'' dataset_dict)
                       dataset_graph_proto of
                  Inl e \<Rightarrow> Inl e
                | Inr dataset_graph_proto' \<Rightarrow>
                    Inr (dict_remove ''children'' dataset_dict, dataset_graph_proto'))))"

text \<open>A child as the walk leaves it: a dict has lost its \<^verbatim>\<open>"children"\<close> key.\<close>

fun after_pop :: "json \<Rightarrow> json" where
  "after_pop (JDict kvs) = JDict (dict_remove ''children'' kvs)"
| "after_pop v = v"

subsection \<open>Notions used in the statements\<close>

text \<open>The entries that the five maps of a parameter block hold under one key.\<close>

definition entries ::
  "operation_parameter \<Rightarrow> string \<Rightarrow>
     string option \<times> bool option \<times> int option \<times> pyfloat option \<times> json list option" where
  "entries p key = (mapStr p key, mapBool p key, mapInt p key, mapDouble p key, mapStrList p key)"

definition has_entry :: "operation_parameter \<Rightarrow> string \<Rightarrow> bool" where
  "has_entry p key = (entries p key \<noteq> (None, None, None, None, None))"

text \<open>
  The children of a node are the packaged truthy elements of its \<^verbatim>\<open>"children"\<close> value,
  in the order of the list, and none when the value is falsy.
\<close>

definition children_as_listed :: "json \<Rightarrow> dataset_graph \<Rightarrow> bool" where
  "children_as_listed children_value g =
     (if truthy children_value then
        (case py_iter children_value of
           Inl e \<Rightarrow> False
         | Inr child_list \<Rightarrow>
             list_all2 (\<lambda>c x. package_child c = Inr x) (filter truthy child_list) (children g))
      else children g = [])"

text \<open>
  The shape of a serialized pipeline: a truthy \<^verbatim>\<open>"children"\<close> value is a list whose
  truthy elements are dicts with a \<^verbatim>\<open>"children"\<close> key of their own, a truthy
  \<^verbatim>\<open>"operations"\<close> value is a list of dicts, a truthy \<^verbatim>\<open>"sampler"\<close> value is a dict.
\<close>

fun well_formed_stage :: "(string \<times> json) list \<Rightarrow> bool"
  and well_formed_children :: "json list \<Rightarrow> bool" where
  "well_formed_stage [] = True"
| "well_formed_stage ((k, v) # rest) =
    ((if k = ''children'' then
        (if truthy v then (case v of JList cs \<Rightarrow> well_formed_children cs | _ \<Rightarrow> False) else True)
      else if k = ''operations'' then
        (if truthy v then isinstance_list v \<and> list_all isinstance_dict (list_of v) else True)
      else if k = ''sampler'' then
        (if truthy v then isinstance_dict v else True)
      else True) \<and> well_formed_stage rest)"
| "well_formed_children [] = True"
| "well_formed_children (c # cs) =
    ((if truthy c then
        (case c of
           JDict kvs \<Rightarrow> map_of kvs ''children'' \<noteq> None \<and> well_formed_stage kvs
         | _ \<Rightarrow> False)
      else True) \<and> well_formed_children cs)"

section \<open>Properties\<close>

subsection \<open>Generic dispatch\<close>

text \<open>
  C4: a boolean value is stored in the Boolean map under its key and the Integer map is
  left as it was, although \<^verbatim>\<open>isinstance(value, int)\<close> holds for a boolean: the test for
  \<^verbatim>\<open>bool\<close> comes first.
\<close>

theorem package_parameter_bool_before_int:
  "isinstance_int (JBool b) \<and>
   package_parameter key (JBool b) message =
     Inr (message\<lparr>mapBool := (mapBool message)(key \<mapsto> b)\<rparr>) \<and>
   mapInt (message\<lparr>mapBool := (mapBool message)(key \<mapsto> b)\<rparr>) = mapInt message"
  by (simp add: package_parameter_def)

text \<open>
  C6, as the code has it: under a key other than \<^verbatim>\<open>"operations"\<close>, a non-empty list is
  handed to the StringList map under that key with every null element replaced by the
  empty string and every other element as it is (appended to the entry, which is new when
  the key has none), and an empty list leaves the message as it was. No element is
  converted: what is stored is a list of strings exactly when every element is a string or
  null.
\<close>

theorem package_parameter_list:
  "key \<noteq> ''operations'' \<Longrightarrow>
   package_parameter key (JList xs) message =
     (if xs = [] then Inr message
      else Inr (message\<lparr>mapStrList := (mapStrList message)
                  (key \<mapsto> (case mapStrList message key of None \<Rightarrow> [] | Some old \<Rightarrow> old)
                           @ map (\<lambda>x. if x = JNull then JStr [] else x) xs)\<rparr>)) \<and>
   (list_all isinstance_str (map (\<lambda>x. if x = JNull then JStr [] else x) xs) \<longleftrightarrow>
      list_all (\<lambda>x. isinstance_str x \<or> x = JNull) xs)"
  by (auto simp: package_parameter_def extend_str_list_def replace_none_def [abs_def]
      list_all_iff)

theorem package_parameter_list_witness:
  "''tag'' \<noteq> ''operations'' \<and>
   package_parameter ''tag'' (JList [JStr ''a'', JNull, JStr ''b'']) empty_parameter =
     Inr (empty_parameter\<lparr>mapStrList := [''tag'' \<mapsto> [JStr ''a'', JStr [], JStr ''b'']]\<rparr>) \<and>
   list_all isinstance_str [JStr ''a'', JStr [], JStr ''b''] \<and>
   package_parameter ''tag'' (JList []) empty_parameter = Inr empty_parameter"
  using package_parameter_list [of "''tag''" "[JStr ''a'', JNull, JStr ''b'']" empty_parameter]
    package_parameter_list [of "''tag''" "[]" empty_parameter]
  by (simp add: empty_parameter_def)

text \<open>
  The claim C6 as stated fails on a list of another element type: \<^verbatim>\<open>{"columns": [1, 2]}\<close>
  hands the integers over as they are, so the entry is not a list of strings.
\<close>

theorem package_parameter_int_list_counterexample:
  "package_parameter ''columns'' (JList [JInt 1, JInt 2]) empty_parameter =
     Inr (empty_parameter\<lparr>mapStrList := [''columns'' \<mapsto> [JInt 1, JInt 2]]\<rparr>) \<and>
   \<not> list_all isinstance_str [JInt 1, JInt 2]"
  by (simp add: package_parameter_def extend_str_list_def replace_none_def empty_parameter_def)

subsection \<open>Lists inside an operation or a sampler\<close>

lemma package_parameter_not_list_mapStrList:
  "\<not> isinstance_list val \<Longrightarrow> package_parameter key val p = Inr p' \<Longrightarrow>
     mapStrList p' = mapStrList p"
  by (auto simp: package_parameter_def split: if_splits)

lemma package_enhancement_items_lists:
  "package_enhancement_items kvs message = Inr message' \<Longrightarrow>
     size_field message' = size_field message @
       concat [list_of v. (k, v) \<leftarrow> kvs, isinstance_list v, list_all isinstance_int (list_of v)] \<and>
     weights message' = weights message @
       concat [list_of v. (k, v) \<leftarrow> kvs, isinstance_list v, \<not> list_all isinstance_int (list_of v)] \<and>
     mapStrList (operationParam message') = mapStrList (operationParam message)"
proof (induction kvs message rule: package_enhancement_items.induct)
  case (1 message)
  then show ?case by simp
next
  case (2 key val rest message)
  show ?case
  proof (cases "isinstance_list val")
    case True
    with 2 show ?thesis by (cases "list_all isinstance_int (list_of val)") auto
  next
    case False
    with 2 show ?thesis
      by (auto split: sum.splits dest: package_parameter_not_list_mapStrList)
  qed
qed

lemma package_enhancement_items_append:
  "package_enhancement_items (before @ rest) message =
     (case package_enhancement_items before message of
        Inl e \<Rightarrow> Inl e
      | Inr m \<Rightarrow> package_enhancement_items rest m)"
  by (induction before message rule: package_enhancement_items.induct)
     (auto split: sum.splits)

text \<open>
  C5: packaging an operation or sampler, at a key whose value is a list (wherever the key
  stands among the items, once the items before it are packaged) the elements are appended
  to \<open>size\<close> when they all pass \<^verbatim>\<open>isinstance(ele, int)\<close> and to \<open>weights\<close> otherwise, the
  other field and the parameters staying as they are; and when the packaging succeeds,
  \<open>size\<close> has gained the elements of exactly the all-integer lists, \<open>weights\<close> those of
  exactly the other lists, in the order of the items, and the StringList map of the
  operation's parameters is as it was.
\<close>

theorem package_enhancement_operation_lists:
  "package_enhancement_operation (JDict (before @ (key, JList xs) # rest)) message =
     (case package_enhancement_operation (JDict before) message of
        Inl e \<Rightarrow> Inl e
      | Inr m \<Rightarrow>
          package_enhancement_operation (JDict rest)
            (if list_all isinstance_int xs
             then m\<lparr>size_field := size_field m @ xs\<rparr>
             else m\<lparr>weights := weights m @ xs\<rparr>)) \<and>
   (package_enhancement_operation (JDict kvs) message = Inr message' \<longrightarrow>
      size_field message' = size_field message @
        concat [list_of v. (k, v) \<leftarrow> kvs, isinstance_list v, list_all isinstance_int (list_of v)] \<and>
      weights message' = weights message @
        concat [list_of v. (k, v) \<leftarrow> kvs, isinstance_list v,
                \<not> list_all isinstance_int (list_of v)] \<and>
      mapStrList (operationParam message') = mapStrList (operationParam message))"
proof (intro conjI impI)
  show "package_enhancement_operation (JDict (before @ (key, JList xs) # rest)) message =
     (case package_enhancement_operation (JDict before) message of
        Inl e \<Rightarrow> Inl e
      | Inr m \<Rightarrow>
          package_enhancement_operation (JDict rest)
            (if list_all isinstance_int xs
             then m\<lparr>size_field := size_field m @ xs\<rparr>
             else m\<lparr>weights := weights m @ xs\<rparr>))"
    by (simp add: package_enhancement_operation_def package_enhancement_items_append
        split: sum.splits)
next
  assume "package_enhancement_operation (JDict kvs) message = Inr message'"
  then have ok: "package_enhancement_items kvs message = Inr message'"
    by (simp add: package_enhancement_operation_def)
  from package_enhancement_items_lists [OF ok]
  show "size_field message' = size_field message @
        concat [list_of v. (k, v) \<leftarrow> kvs, isinstance_list v, list_all isinstance_int (list_of v)]"
    and "weights message' = weights message @
        concat [list_of v. (k, v) \<leftarrow> kvs, isinstance_list v,
                \<not> list_all isinstance_int (list_of v)]"
    and "mapStrList (operationParam message') = mapStrList (operationParam message)"
    by simp_all
qed

theorem package_enhancement_operation_lists_witness:
  "\<exists>m. package_enhancement_operation
          (JDict [(''kernel_name'', JStr ''Sampler''), (''num_samples'', JList [JInt 10, JInt 20]),
                  (''prob'', JList [JFloat (Finite 0.1), JFloat (Finite 0.2)])])
          empty_operation = Inr m \<and>
        mapStr (operationParam m) ''kernel_name'' = Some ''Sampler'' \<and>
        size_field m = [JInt 10, JInt 20] \<and>
        weights m = [JFloat (Finite 0.1), JFloat (Finite 0.2)] \<and>
        mapStrList (operationParam m) = Map.empty"
proof -
  let ?p = "empty_parameter\<lparr>mapStr := [''kernel_name'' \<mapsto> ''Sampler'']\<rparr>"
  let ?prob = "[JFloat (Finite 0.1), JFloat (Finite 0.2)]"
  let ?d = "[(''kernel_name'', JStr ''Sampler''), (''num_samples'', JList [JInt 10, JInt 20]),
             (''prob'', JList ?prob)]"
  let ?m = "\<lparr>operationParam = ?p, size_field = [JInt 10, JInt 20], weights = ?prob\<rparr>"
  have 0: "package_enhancement_operation (JDict [(''kernel_name'', JStr ''Sampler'')])
      empty_operation = Inr \<lparr>operationParam = ?p, size_field = [], weights = []\<rparr>"
    by (simp add: package_enhancement_operation_def package_parameter_def empty_operation_def
        empty_parameter_def)
  have 1: "package_enhancement_operation (JDict ?d) empty_operation =
    package_enhancement_operation (JDict [(''prob'', JList ?prob)])
      \<lparr>operationParam = ?p, size_field = [JInt 10, JInt 20], weights = []\<rparr>"
    using package_enhancement_operation_lists
      [of "[(''kernel_name'', JStr ''Sampler'')]" "''num_samples''" "[JInt 10, JInt 20]"
          "[(''prob'', JList ?prob)]" empty_operation]
      0 by simp
  have 2: "package_enhancement_operation (JDict [(''prob'', JList ?prob)])
      \<lparr>operationParam = ?p, size_field = [JInt 10, JInt 20], weights = []\<rparr> = Inr ?m"
    using package_enhancement_operation_lists
      [of "[]" "''prob''" ?prob "[]"
          "\<lparr>operationParam = ?p, size_field = [JInt 10, JInt 20], weights = []\<rparr>"]
    by (simp add: package_enhancement_operation_def)
  from 1 2 have ok: "package_enhancement_operation (JDict ?d) empty_operation = Inr ?m"
    by simp
  from package_enhancement_operation_lists
    [where kvs = ?d and message = empty_operation and message' = ?m] ok
  have "size_field ?m = [JInt 10, JInt 20]" "weights ?m = ?prob"
    "mapStrList (operationParam ?m) = Map.empty"
    by (simp_all add: empty_operation_def empty_parameter_def)
  with ok show ?thesis
    by (simp add: empty_parameter_def)
qed

text \<open>
  C10: inside an operation or sampler, a list of booleans, or of booleans and integers,
  passes the all-integer test and its elements are appended to \<open>size\<close>, whereas generic
  dispatch stores a boolean in the Boolean map.
\<close>

theorem package_enhancement_bool_list:
  "set xs \<subseteq> range JBool \<union> range JInt \<Longrightarrow>
   list_all isinstance_int xs \<and>
   package_enhancement_operation (JDict ((key, JList xs) # rest)) message =
     package_enhancement_operation (JDict rest)
       (message\<lparr>size_field := size_field message @ xs\<rparr>) \<and>
   package_parameter key (JBool b) p = Inr (p\<lparr>mapBool := (mapBool p)(key \<mapsto> b)\<rparr>)"
proof -
  assume "set xs \<subseteq> range JBool \<union> range JInt"
  then have "list_all isinstance_int xs"
    by (auto simp: list_all_iff)
  then show ?thesis
    by (simp add: package_enhancement_operation_def package_parameter_def)
qed

theorem package_enhancement_bool_list_witness:
  "set [JBool True, JInt 3, JBool False] \<subseteq> range JBool \<union> range JInt \<and>
   package_enhancement_operation (JDict [(''flags'', JList [JBool True, JInt 3, JBool False])])
     empty_operation =
     Inr (empty_operation\<lparr>size_field := [JBool True, JInt 3, JBool False]\<rparr>)"
proof -
  have h: "set [JBool True, JInt 3, JBool False] \<subseteq> range JBool \<union> range JInt"
    by auto
  show ?thesis
    using h package_enhancement_bool_list [OF h, of "''flags''" "[]" empty_operation]
    by (simp add: package_enhancement_operation_def empty_operation_def)
qed

subsection \<open>Fields that a step leaves alone\<close>

lemma graph_fields [simp]:
  "children (add_child c g) = children g @ [c]"
  "parameter (add_child c g) = parameter g"
  "operations (add_child c g) = operations g"
  "sampler (add_child c g) = sampler g"
  "children (set_parameter p g) = children g"
  "parameter (set_parameter p g) = p"
  "operations (set_parameter p g) = operations g"
  "sampler (set_parameter p g) = sampler g"
  "children (add_operation x g) = children g"
  "parameter (add_operation x g) = parameter g"
  "operations (add_operation x g) = operations g @ [x]"
  "sampler (add_operation x g) = sampler g"
  "children (set_sampler s g) = children g"
  "parameter (set_sampler s g) = parameter g"
  "operations (set_sampler s g) = operations g"
  "sampler (set_sampler s g) = Some s"
  by (simp_all add: add_child_def set_parameter_def add_operation_def set_sampler_def)

lemma empty_graph_fields [simp]:
  "children empty_graph = []"
  "parameter empty_graph = empty_parameter"
  "operations empty_graph = []"
  "sampler empty_graph = None"
  by (simp_all add: empty_graph_def)

lemma entries_empty [simp]: "entries empty_parameter key = (None, None, None, None, None)"
  by (simp add: entries_def empty_parameter_def)

lemma set_dict_remove: "set (dict_remove k kvs) \<subseteq> set kvs"
  by (auto simp: dict_remove_def)

lemma in_dict_remove:
  "(key, val) \<in> set kvs \<Longrightarrow> key \<noteq> k \<Longrightarrow> (key, val) \<in> set (dict_remove k kvs)"
  by (simp add: dict_remove_def)

lemma distinct_dict_remove:
  "distinct (map fst kvs) \<Longrightarrow> distinct (map fst (dict_remove k kvs))"
  by (simp add: dict_remove_def distinct_map_filter)

lemma package_children_Cons:
  "package_children (child # rest) message =
     (if truthy child then
        (case package_child child of
           Inl e \<Rightarrow> Inl e
         | Inr x \<Rightarrow> package_children rest (add_child x message))
      else package_children rest message)"
  by (simp add: package_child_def split: sum.splits prod.splits)

declare package_children.simps(2) [simp del]

lemma package_dataset_graph_alt:
  "package_dataset_graph dataset_dict =
     (case map_of dataset_dict ''children'' of
        None \<Rightarrow> Inr empty_graph
      | Some children_value \<Rightarrow>
          (case package_children_of children_value of
             Inl e \<Rightarrow> Inl e
           | Inr g \<Rightarrow> package_current_dataset (dict_remove ''children'' dataset_dict) g))"
  by (simp add: package_dataset_graph_def package_children_of_def split: option.splits)

lemma package_child_alt:
  "package_child child =
     (case py_pop child ''children'' of
        Inl e \<Rightarrow> Inl e
      | Inr popped \<Rightarrow>
          (case package_children_of (fst popped) of
             Inl e \<Rightarrow> Inl e
           | Inr g \<Rightarrow> package_current_dataset (snd popped) g))"
  by (simp add: package_child_def package_children_of_def split: sum.splits prod.splits)

lemma package_operators_frame:
  "package_operators ops g = Inr g' \<Longrightarrow>
     children g' = children g \<and> parameter g' = parameter g \<and> sampler g' = sampler g"
  by (induction ops g rule: package_operators.induct) (auto split: sum.splits)

lemma package_current_dataset_children:
  "package_current_dataset kvs g = Inr g' \<Longrightarrow> children g' = children g"
  by (induction kvs g rule: package_current_dataset.induct)
     (auto split: sum.splits if_splits dest: package_operators_frame)

lemma package_children_children:
  "package_children cs g = Inr g' \<Longrightarrow>
     (\<exists>new. children g' = children g @ new \<and>
        list_all2 (\<lambda>c x. package_child c = Inr x) (filter truthy cs) new) \<and>
     parameter g' = parameter g \<and> operations g' = operations g \<and> sampler g' = sampler g"
proof (induction cs arbitrary: g)
  case Nil
  then show ?case by simp
next
  case (Cons c cs)
  show ?case
  proof (cases "truthy c")
    case False
    with Cons show ?thesis by (simp add: package_children_Cons)
  next
    case True
    with Cons.prems obtain x where x: "package_child c = Inr x"
      and rest: "package_children cs (add_child x g) = Inr g'"
      by (auto simp: package_children_Cons split: sum.splits)
    from Cons.IH [OF rest] obtain new where
      "children g' = (children g @ [x]) @ new"
      "list_all2 (\<lambda>c x. package_child c = Inr x) (filter truthy cs) new"
      "parameter g' = parameter g" "operations g' = operations g" "sampler g' = sampler g"
      by auto
    with True x show ?thesis by auto
  qed
qed

lemma package_children_of_frame:
  "package_children_of v = Inr g \<Longrightarrow>
     parameter g = empty_parameter \<and> operations g = [] \<and> sampler g = None"
  by (auto simp: package_children_of_def split: if_splits sum.splits
      dest: package_children_children)

lemma package_children_of_children:
  "package_children_of v = Inr g \<Longrightarrow> children_as_listed v g"
  by (auto simp: package_children_of_def children_as_listed_def split: if_splits sum.splits
      dest: package_children_children)

lemma package_parameter_error:
  "package_parameter key val message = Inl e \<longleftrightarrow>
     e = unsupported key \<and> (isinstance_dict val \<or> isinstance_list val \<and> key = ''operations'')"
  by (cases val) (auto simp: package_parameter_def)

lemma package_parameter_other_key:
  "package_parameter k v p = Inr p' \<Longrightarrow> k \<noteq> key \<Longrightarrow> entries p' key = entries p key"
  by (auto simp: package_parameter_def entries_def extend_str_list_def split: if_splits)

lemma package_parameter_same_entries:
  "entries p key = entries q key \<Longrightarrow> package_parameter key v p = Inr p' \<Longrightarrow>
     \<exists>q'. package_parameter key v q = Inr q' \<and> entries q' key = entries p' key"
  by (auto simp: package_parameter_def entries_def extend_str_list_def split: if_splits)

lemma package_current_dataset_absent_key:
  "package_current_dataset kvs g = Inr g' \<Longrightarrow> key \<notin> fst ` set kvs \<Longrightarrow>
     entries (parameter g') key = entries (parameter g) key"
  by (induction kvs g rule: package_current_dataset.induct)
     (auto split: sum.splits if_splits
        dest!: package_operators_frame package_parameter_other_key [where key = key])

lemma package_current_dataset_step:
  "package_current_dataset ((k, v) # rest) g = Inr g' \<Longrightarrow>
     \<exists>g1. package_current_dataset rest g1 = Inr g' \<and>
       (if truthy v \<and> (k = ''operations'' \<or> k = ''sampler'')
        then parameter g1 = parameter g
        else \<exists>p. package_parameter k v (parameter g) = Inr p \<and> parameter g1 = p)"
  by (auto split: sum.splits if_splits dest: package_operators_frame)

subsection \<open>A whole pipeline\<close>

text \<open>
  A map stage over a source stage, with one operation:
  \<^verbatim>\<open>{"op": "Map", "children": [{"op": "Source", "children": [], "num_parallel_workers": 4}],
  "operations": [{"kernel_name": "Resize", "size": [224, 224]}]}\<close>.
\<close>

lemma end_to_end_example:
  "package_dataset_graph
     [(''op'', JStr ''Map''),
      (''children'',
         JList [JDict [(''op'', JStr ''Source''), (''children'', JList []),
                       (''num_parallel_workers'', JInt 4)]]),
      (''operations'',
         JList [JDict [(''kernel_name'', JStr ''Resize''), (''size'', JList [JInt 224, JInt 224])]])]
   = Inr (DatasetGraph
            [DatasetGraph []
               (empty_parameter\<lparr>mapStr := [''op'' \<mapsto> ''Source''],
                                mapInt := [''num_parallel_workers'' \<mapsto> 4]\<rparr>) [] None]
            (empty_parameter\<lparr>mapStr := [''op'' \<mapsto> ''Map'']\<rparr>)
            [\<lparr>operationParam = empty_parameter\<lparr>mapStr := [''kernel_name'' \<mapsto> ''Resize'']\<rparr>,
              size_field = [JInt 224, JInt 224], weights = []\<rparr>]
            None)"
  by (simp add: package_dataset_graph_def package_children_Cons package_child_def dict_remove_def
      package_parameter_def package_enhancement_operation_def empty_graph_def set_parameter_def
      add_child_def add_operation_def empty_parameter_def empty_operation_def)

subsection \<open>The parameters of a node\<close>

lemma package_current_dataset_structural_key:
  "package_current_dataset kvs g = Inr g' \<Longrightarrow>
   key = ''operations'' \<or> key = ''sampler'' \<Longrightarrow>
   \<forall>v. (key, v) \<in> set kvs \<longrightarrow> truthy v \<Longrightarrow>
     entries (parameter g') key = entries (parameter g) key"
proof (induction kvs arbitrary: g)
  case Nil
  then show ?case by simp
next
  case (Cons kv rest)
  obtain k v where kv: "kv = (k, v)" by (cases kv)
  from Cons.prems(1) kv obtain g1 where rest: "package_current_dataset rest g1 = Inr g'"
    and g1: "if truthy v \<and> (k = ''operations'' \<or> k = ''sampler'')
        then parameter g1 = parameter g
        else \<exists>p. package_parameter k v (parameter g) = Inr p \<and> parameter g1 = p"
    using package_current_dataset_step by blast
  have "\<forall>v. (key, v) \<in> set rest \<longrightarrow> truthy v"
    using Cons.prems(3) by auto
  from Cons.IH [OF rest Cons.prems(2) this]
  have after: "entries (parameter g') key = entries (parameter g1) key" .
  show ?case
  proof (cases "truthy v \<and> (k = ''operations'' \<or> k = ''sampler'')")
    case True
    with g1 after show ?thesis by simp
  next
    case False
    with Cons.prems(2,3) kv have "k \<noteq> key" by auto
    with False g1 after show ?thesis
      by (auto dest: package_parameter_other_key)
  qed
qed

text \<open>
  C1, as the code has it: at the root and at every child, a key \<^verbatim>\<open>"operations"\<close> or
  \<^verbatim>\<open>"sampler"\<close> with a truthy value has no entry in any of the five parameter maps of the
  packaged node. (A falsy value is not held back: it goes through generic dispatch.)
\<close>

theorem structural_keys_excluded:
  "key = ''operations'' \<or> key = ''sampler'' \<Longrightarrow>
   \<forall>v. (key, v) \<in> set node \<longrightarrow> truthy v \<Longrightarrow>
     (package_dataset_graph node = Inr g \<longrightarrow> \<not> has_entry (parameter g) key) \<and>
     (package_child (JDict node) = Inr x \<longrightarrow> \<not> has_entry (parameter x) key)"
proof (intro conjI impI)
  assume key: "key = ''operations'' \<or> key = ''sampler''"
    and tr: "\<forall>v. (key, v) \<in> set node \<longrightarrow> truthy v"
  have tr': "\<forall>v. (key, v) \<in> set (dict_remove ''children'' node) \<longrightarrow> truthy v"
    using tr set_dict_remove by blast
  have after_children: "entries (parameter g') key = (None, None, None, None, None)"
    if "package_children_of cv = Inr g0"
      and "package_current_dataset (dict_remove ''children'' node) g0 = Inr g'" for cv g0 g'
    using package_current_dataset_structural_key [OF that(2) key tr']
      package_children_of_frame [OF that(1)] by simp
  {
    assume ok: "package_dataset_graph node = Inr g"
    then show "\<not> has_entry (parameter g) key"
      by (auto simp: package_dataset_graph_alt has_entry_def split: sum.splits option.splits
            dest: after_children)
  }
  {
    assume ok: "package_child (JDict node) = Inr x"
    then show "\<not> has_entry (parameter x) key"
      by (auto simp: package_child_alt has_entry_def split: sum.splits option.splits
          dest: after_children)
  }
qed

theorem structural_keys_excluded_witness:
  "\<exists>g x.
     package_dataset_graph
       [(''op'', JStr ''Map''), (''children'', JList []),
        (''sampler'', JDict [(''num_samples'', JInt 5)])] = Inr g \<and>
     \<not> has_entry (parameter g) ''sampler'' \<and> sampler g \<noteq> None \<and>
     package_child
       (JDict [(''op'', JStr ''Map''), (''children'', JList []),
               (''sampler'', JDict [(''num_samples'', JInt 5)])]) = Inr x \<and>
     \<not> has_entry (parameter x) ''sampler'' \<and> sampler x \<noteq> None"
proof -
  let ?node = "[(''op'', JStr ''Map''), (''children'', JList []),
        (''sampler'', JDict [(''num_samples'', JInt 5)])]"
  have "\<exists>g. package_dataset_graph ?node = Inr g \<and> sampler g \<noteq> None"
    by (simp add: package_dataset_graph_def dict_remove_def package_parameter_def
        package_enhancement_operation_def)
  then obtain g where g: "package_dataset_graph ?node = Inr g" "sampler g \<noteq> None" by blast
  have "\<exists>x. package_child (JDict ?node) = Inr x \<and> sampler x \<noteq> None"
    by (simp add: package_child_def dict_remove_def package_parameter_def
        package_enhancement_operation_def)
  then obtain x where x: "package_child (JDict ?node) = Inr x" "sampler x \<noteq> None" by blast
  have tr: "\<forall>v. (''sampler'', v) \<in> set ?node \<longrightarrow> truthy v" by simp
  from structural_keys_excluded [OF _ tr, of g x] g x show ?thesis by blast
qed

text \<open>
  The claim C1 as stated fails on a falsy value: \<^verbatim>\<open>{"children": [], "sampler": null}\<close>
  gives the String map the entry \<^verbatim>\<open>"sampler": "None"\<close>.
\<close>

theorem structural_keys_falsy_counterexample:
  "package_dataset_graph [(''children'', JList []), (''sampler'', JNull)] =
     Inr (DatasetGraph [] (empty_parameter\<lparr>mapStr := [''sampler'' \<mapsto> ''None'']\<rparr>) [] None)"
  by (simp add: package_dataset_graph_def dict_remove_def package_parameter_def
      empty_graph_def set_parameter_def empty_parameter_def)

lemma package_current_dataset_entry:
  "distinct (map fst kvs) \<Longrightarrow> package_current_dataset kvs g = Inr g' \<Longrightarrow>
   (key, val) \<in> set kvs \<Longrightarrow> \<not> (truthy val \<and> (key = ''operations'' \<or> key = ''sampler'')) \<Longrightarrow>
     \<exists>p. package_parameter key val (parameter g) = Inr p \<and>
       entries (parameter g') key = entries p key"
proof (induction kvs arbitrary: g)
  case Nil
  then show ?case by simp
next
  case (Cons kv rest)
  obtain k v where kv: "kv = (k, v)" by (cases kv)
  from Cons.prems(2) kv obtain g1 where rest: "package_current_dataset rest g1 = Inr g'"
    and g1: "if truthy v \<and> (k = ''operations'' \<or> k = ''sampler'')
        then parameter g1 = parameter g
        else \<exists>p. package_parameter k v (parameter g) = Inr p \<and> parameter g1 = p"
    using package_current_dataset_step by blast
  have d: "distinct (map fst rest)" and notin: "k \<notin> fst ` set rest"
    using Cons.prems(1) kv by auto
  show ?case
  proof (cases "(key, val) = (k, v)")
    case True
    with g1 Cons.prems(4) have p: "package_parameter key val (parameter g) = Inr (parameter g1)"
      by auto
    from True notin have "key \<notin> fst ` set rest" by simp
    from package_current_dataset_absent_key [OF rest this] p show ?thesis by auto
  next
    case False
    with Cons.prems(3) kv have in_rest: "(key, val) \<in> set rest" by auto
    with notin have "k \<noteq> key" by force
    with g1 have same: "entries (parameter g1) key = entries (parameter g) key"
      by (auto split: if_splits dest: package_parameter_other_key)
    from Cons.IH [OF d rest in_rest Cons.prems(4)] obtain p1 where
      p1: "package_parameter key val (parameter g1) = Inr p1"
        "entries (parameter g') key = entries p1 key" by blast
    from package_parameter_same_entries [OF same p1(1)] p1(2) show ?thesis by auto
  qed
qed

text \<open>
  C2, as the code has it: the root's own parameters are packaged only when the root has a
  \<^verbatim>\<open>"children"\<close> key, and then after the children: without the key the result is the
  empty message; with the key, a failure of the children is the failure of the call, and
  on success every other key that is not a truthy \<^verbatim>\<open>"operations"\<close> or \<^verbatim>\<open>"sampler"\<close> has in
  the root's parameter maps the entries that generic dispatch gives it.
\<close>

theorem parameters_when_children_present:
  "(map_of dataset_dict ''children'' = None \<longrightarrow>
      package_dataset_graph dataset_dict = Inr empty_graph) \<and>
   (map_of dataset_dict ''children'' = Some children_value \<and>
    package_children_of children_value = Inl e \<longrightarrow>
      package_dataset_graph dataset_dict = Inl e) \<and>
   (map_of dataset_dict ''children'' = Some children_value \<and>
    package_dataset_graph dataset_dict = Inr g \<and>
    distinct (map fst dataset_dict) \<and> (key, val) \<in> set dataset_dict \<and> key \<noteq> ''children'' \<and>
    \<not> (truthy val \<and> (key = ''operations'' \<or> key = ''sampler'')) \<longrightarrow>
      (\<exists>p. package_parameter key val empty_parameter = Inr p \<and>
         entries (parameter g) key = entries p key))"
proof (intro conjI impI)
  assume "map_of dataset_dict ''children'' = None"
  then show "package_dataset_graph dataset_dict = Inr empty_graph"
    by (simp add: package_dataset_graph_def)
next
  assume "map_of dataset_dict ''children'' = Some children_value \<and>
    package_children_of children_value = Inl e"
  then show "package_dataset_graph dataset_dict = Inl e"
    by (simp add: package_dataset_graph_alt)
next
  assume a: "map_of dataset_dict ''children'' = Some children_value \<and>
    package_dataset_graph dataset_dict = Inr g \<and>
    distinct (map fst dataset_dict) \<and> (key, val) \<in> set dataset_dict \<and> key \<noteq> ''children'' \<and>
    \<not> (truthy val \<and> (key = ''operations'' \<or> key = ''sampler''))"
  then obtain g0 where g0: "package_children_of children_value = Inr g0"
    and g: "package_current_dataset (dict_remove ''children'' dataset_dict) g0 = Inr g"
    by (auto simp: package_dataset_graph_alt split: sum.splits)
  have "parameter g0 = empty_parameter"
    using package_children_of_frame [OF g0] by simp
  with package_current_dataset_entry [OF distinct_dict_remove g in_dict_remove, of key val] a
  show "\<exists>p. package_parameter key val empty_parameter = Inr p \<and>
         entries (parameter g) key = entries p key"
    by simp
qed

theorem parameters_when_children_present_witness:
  "package_dataset_graph [(''op'', JStr ''Map'')] = Inr empty_graph \<and>
   package_dataset_graph [(''cfg'', JDict []), (''children'', JInt 5)] = Inl TypeError \<and>
   (\<exists>g. package_dataset_graph [(''op'', JStr ''Map''), (''children'', JList [])] = Inr g \<and>
      entries (parameter g) ''op'' = (Some ''Map'', None, None, None, None))"
proof -
  have 1: "package_dataset_graph [(''op'', JStr ''Map'')] = Inr empty_graph"
    using parameters_when_children_present [of "[(''op'', JStr ''Map'')]"] by simp
  have "package_children_of (JInt 5) = Inl TypeError"
    by (simp add: package_children_of_def)
  then have 2: "package_dataset_graph [(''cfg'', JDict []), (''children'', JInt 5)] = Inl TypeError"
    using parameters_when_children_present
      [of "[(''cfg'', JDict []), (''children'', JInt 5)]" "JInt 5" TypeError] by simp
  let ?d = "[(''op'', JStr ''Map''), (''children'', JList [])]"
  have "\<exists>g. package_dataset_graph ?d = Inr g"
    by (simp add: package_dataset_graph_def dict_remove_def package_parameter_def)
  then obtain g where g: "package_dataset_graph ?d = Inr g" by blast
  have "\<exists>p. package_parameter ''op'' (JStr ''Map'') empty_parameter = Inr p \<and>
         entries (parameter g) ''op'' = entries p ''op''"
    using parameters_when_children_present [of ?d "JList []" _ g "''op''" "JStr ''Map''"] g
    by simp
  then have "entries (parameter g) ''op'' = (Some ''Map'', None, None, None, None)"
    by (auto simp: package_parameter_def entries_def empty_parameter_def)
  with 1 2 g show ?thesis by blast
qed

text \<open>
  The claim C2 as stated fails when the root has no \<^verbatim>\<open>"children"\<close> key:
  \<^verbatim>\<open>{"op": "Map"}\<close> gives the empty message, without the entry for \<^verbatim>\<open>"op"\<close>.
\<close>

theorem parameters_without_children_counterexample:
  "package_dataset_graph [(''op'', JStr ''Map'')] = Inr empty_graph"
  by (simp add: package_dataset_graph_def)

subsection \<open>The children of a node\<close>

lemma children_as_listed_same_children:
  "children_as_listed v g0 \<Longrightarrow> children g = children g0 \<Longrightarrow> children_as_listed v g"
  by (auto simp: children_as_listed_def split: sum.splits)

text \<open>
  C3, as the code has it: when the packaging of a node succeeds, a truthy \<^verbatim>\<open>"children"\<close>
  value has given one child node per truthy element, in the order of the list (falsy
  elements are passed over), and a falsy value has given no child; this holds at the root
  and at every child. At the root a missing key gives the empty message.
\<close>

theorem children_per_truthy_element:
  "(package_dataset_graph dataset_dict = Inr g \<longrightarrow>
      (case map_of dataset_dict ''children'' of
         None \<Rightarrow> g = empty_graph
       | Some children_value \<Rightarrow> children_as_listed children_value g)) \<and>
   (package_child child = Inr x \<longrightarrow>
      (\<exists>grandson child'. py_pop child ''children'' = Inr (grandson, child') \<and>
         children_as_listed grandson x))"
proof (intro conjI impI)
  assume ok: "package_dataset_graph dataset_dict = Inr g"
  show "case map_of dataset_dict ''children'' of
         None \<Rightarrow> g = empty_graph
       | Some children_value \<Rightarrow> children_as_listed children_value g"
  proof (cases "map_of dataset_dict ''children''")
    case None
    with ok show ?thesis by (simp add: package_dataset_graph_def)
  next
    case (Some cv)
    with ok obtain g0 where g0: "package_children_of cv = Inr g0"
      and g: "package_current_dataset (dict_remove ''children'' dataset_dict) g0 = Inr g"
      by (auto simp: package_dataset_graph_alt split: sum.splits)
    from package_children_of_children [OF g0] package_current_dataset_children [OF g]
    have "children_as_listed cv g"
      by (rule children_as_listed_same_children)
    with Some show ?thesis by simp
  qed
next
  assume ok: "package_child child = Inr x"
  then obtain gv c' g0 where pop: "py_pop child ''children'' = Inr (gv, c')"
    and g0: "package_children_of gv = Inr g0"
    and x: "package_current_dataset c' g0 = Inr x"
    by (auto simp: package_child_alt split: sum.splits)
  from package_children_of_children [OF g0] package_current_dataset_children [OF x]
  have "children_as_listed gv x"
    by (rule children_as_listed_same_children)
  with pop show "\<exists>grandson child'. py_pop child ''children'' = Inr (grandson, child') \<and>
         children_as_listed grandson x" by blast
qed

theorem children_per_truthy_element_witness:
  "\<exists>g x.
     package_dataset_graph
       [(''op'', JStr ''Map''),
        (''children'', JList [JDict [], JDict [(''op'', JStr ''Source''), (''children'', JList [])]])]
       = Inr g \<and>
     length (children g) = 1 \<and>
     package_child (JDict [(''op'', JStr ''Source''), (''children'', JList [])]) = Inr x \<and>
     children g = [x] \<and> children x = []"
proof -
  let ?child = "JDict [(''op'', JStr ''Source''), (''children'', JList [])]"
  let ?d = "[(''op'', JStr ''Map''), (''children'', JList [JDict [], ?child])]"
  have "\<exists>x. package_child ?child = Inr x"
    by (simp add: package_child_def dict_remove_def package_parameter_def)
  then obtain x where x: "package_child ?child = Inr x" by blast
  then have "\<exists>g. package_dataset_graph ?d = Inr g"
    by (simp add: package_dataset_graph_def package_children_Cons dict_remove_def
        package_parameter_def)
  then obtain g where g: "package_dataset_graph ?d = Inr g" by blast
  from children_per_truthy_element [of ?d g ?child x] g x
  have "children_as_listed (JList [JDict [], ?child]) g" "children_as_listed (JList []) x"
    by (simp_all add: dict_remove_def)
  with x have "children g = [x]" "children x = []"
    by (simp_all add: children_as_listed_def list_all2_Cons1)
  with g x show ?thesis by simp
qed

text \<open>
  The claim C3 as stated fails on a falsy element: the truthy list \<^verbatim>\<open>[{}]\<close> has one
  element and gives no child (the result is the empty message).
\<close>

theorem children_falsy_element_counterexample:
  "truthy (JList [JDict []]) \<and>
   package_dataset_graph [(''children'', JList [JDict []])] = Inr empty_graph"
  by (simp add: package_dataset_graph_def package_children_Cons dict_remove_def)

subsection \<open>The operations of a node\<close>

lemma package_enhancement_operation_dict:
  "package_enhancement_operation operator message = Inr x \<Longrightarrow> isinstance_dict operator"
  by (cases operator) (auto simp: package_enhancement_operation_def)

lemma package_operators_operations:
  "package_operators ops g = Inr g' \<Longrightarrow>
     \<exists>new. operations g' = operations g @ new \<and>
       list_all2 (\<lambda>operator x. package_enhancement_operation operator empty_operation = Inr x) ops new"
proof (induction ops g rule: package_operators.induct)
  case (1 message)
  then show ?case by simp
next
  case (2 operator rest message)
  then obtain x where x: "package_enhancement_operation operator empty_operation = Inr x"
    and rest: "package_operators rest (add_operation x message) = Inr g'"
    by (auto split: sum.splits)
  from "2.IH" [OF x rest] obtain new where
    "operations g' = (operations message @ [x]) @ new"
    "list_all2 (\<lambda>operator x. package_enhancement_operation operator empty_operation = Inr x) rest new"
    by auto
  with x show ?case by auto
qed

lemma package_current_dataset_no_operations:
  "package_current_dataset kvs g = Inr g' \<Longrightarrow> ''operations'' \<notin> fst ` set kvs \<Longrightarrow>
     operations g' = operations g"
  by (induction kvs g rule: package_current_dataset.induct)
     (auto split: sum.splits if_splits)

text \<open>
  C9, as the code has it: when the packaging of a node whose \<^verbatim>\<open>"operations"\<close> key holds a
  non-empty list succeeds, every element of the list is a dict and has given one appended
  operation sub-node, in the order of the list. (A null element is not passed over: the
  call fails on it.)
\<close>

theorem operations_per_element:
  "package_current_dataset operation message = Inr message' \<Longrightarrow>
   distinct (map fst operation) \<Longrightarrow>
   (''operations'', JList operators) \<in> set operation \<Longrightarrow>
   operators \<noteq> [] \<Longrightarrow>
     (\<exists>new. operations message' = operations message @ new \<and>
        list_all2 (\<lambda>operator x. package_enhancement_operation operator empty_operation = Inr x)
          operators new) \<and>
     list_all isinstance_dict operators"
proof (induction operation arbitrary: message)
  case Nil
  then show ?case by simp
next
  case (Cons kv rest)
  obtain key val where kv: "kv = (key, val)" by (cases kv)
  show ?case
  proof (cases "key = ''operations''")
    case True
    with Cons.prems kv have val: "val = JList operators"
      and notin: "''operations'' \<notin> fst ` set rest"
      by (auto simp: image_iff)
    with True Cons.prems kv obtain g1 where g1: "package_operators operators message = Inr g1"
      and rest: "package_current_dataset rest g1 = Inr message'"
      by (auto split: sum.splits)
    from package_operators_operations [OF g1] obtain new where
      new: "operations g1 = operations message @ new"
        "list_all2 (\<lambda>operator x. package_enhancement_operation operator empty_operation = Inr x)
          operators new"
      by blast
    have "list_all isinstance_dict operators"
      using new(2) by (induction operators new rule: list_all2_induct)
        (auto dest: package_enhancement_operation_dict)
    with new package_current_dataset_no_operations [OF rest notin] show ?thesis by auto
  next
    case False
    with Cons.prems kv have in_rest: "(''operations'', JList operators) \<in> set rest"
      and d: "distinct (map fst rest)" by auto
    from Cons.prems(1) kv False obtain g1 where
      rest: "package_current_dataset rest g1 = Inr message'"
      and g1: "operations g1 = operations message"
      by (auto split: sum.splits if_splits)
    from Cons.IH [OF rest d in_rest Cons.prems(4)] g1 show ?thesis by simp
  qed
qed

theorem operations_per_element_witness:
  "\<exists>g x y.
     package_current_dataset
       [(''op'', JStr ''Map''),
        (''operations'', JList [JDict [(''kernel_name'', JStr ''Resize'')], JDict []])]
       empty_graph = Inr g \<and>
     operations g = [x, y] \<and>
     package_enhancement_operation (JDict [(''kernel_name'', JStr ''Resize'')]) empty_operation
       = Inr x \<and>
     package_enhancement_operation (JDict []) empty_operation = Inr y"
proof -
  let ?ops = "[JDict [(''kernel_name'', JStr ''Resize'')], JDict []]"
  let ?d = "[(''op'', JStr ''Map''), (''operations'', JList ?ops)]"
  have "\<exists>g. package_current_dataset ?d empty_graph = Inr g"
    by (simp add: package_parameter_def package_enhancement_operation_def)
  then obtain g where g: "package_current_dataset ?d empty_graph = Inr g" by blast
  have "distinct (map fst ?d)" "(''operations'', JList ?ops) \<in> set ?d" "?ops \<noteq> []"
    by simp_all
  from operations_per_element [OF g this] g show ?thesis
    by (auto simp: list_all2_Cons1)
qed

text \<open>
  The claim C9 as stated fails on a null element: \<^verbatim>\<open>None\<close> has no \<^verbatim>\<open>items\<close>, so
  \<^verbatim>\<open>{"operations": [{"kernel_name": "Resize"}, null]}\<close> raises \<^verbatim>\<open>AttributeError\<close>.
\<close>

theorem operations_null_element_counterexample:
  "package_current_dataset
     [(''operations'', JList [JDict [(''kernel_name'', JStr ''Resize'')], JNull])] empty_graph
   = Inl AttributeError"
  by (simp add: package_parameter_def package_enhancement_operation_def)

subsection \<open>The errors of the packager\<close>

lemma package_enhancement_items_error:
  "package_enhancement_items kvs message = Inl e \<Longrightarrow> \<exists>key. e = unsupported key"
  by (induction kvs message rule: package_enhancement_items.induct)
     (auto split: if_splits sum.splits simp: package_parameter_error)

lemma package_enhancement_operation_error:
  "isinstance_dict operation \<Longrightarrow> package_enhancement_operation operation message = Inl e \<Longrightarrow>
     \<exists>key. e = unsupported key"
  by (cases operation)
     (auto simp: package_enhancement_operation_def dest: package_enhancement_items_error)

lemma package_operators_error:
  "list_all isinstance_dict operators \<Longrightarrow> package_operators operators message = Inl e \<Longrightarrow>
     \<exists>key. e = unsupported key"
  by (induction operators message rule: package_operators.induct)
     (auto split: sum.splits dest: package_enhancement_operation_error)

lemma package_current_dataset_error:
  "well_formed_stage kvs \<Longrightarrow> package_current_dataset kvs message = Inl e \<Longrightarrow>
     \<exists>key. e = unsupported key"
proof (induction kvs message rule: package_current_dataset.induct)
  case (1 message)
  then show ?case by simp
next
  case (2 key val rest message)
  show ?case
  proof (cases "truthy val \<and> key = ''operations''")
    case True
    with "2.prems" obtain ops where ops: "val = JList ops" "list_all isinstance_dict ops"
      by (cases val) auto
    with True 2 show ?thesis
      by (auto split: sum.splits dest: package_operators_error)
  next
    case False
    note not_ops = this
    show ?thesis
    proof (cases "truthy val \<and> key = ''sampler''")
      case True
      with 2 show ?thesis
        by (auto split: sum.splits dest: package_enhancement_operation_error)
    next
      case False
      with not_ops 2 show ?thesis
        by (auto split: sum.splits if_splits simp: package_parameter_error)
    qed
  qed
qed

lemma well_formed_stage_dict_remove:
  "well_formed_stage kvs \<Longrightarrow> well_formed_stage (dict_remove key kvs)"
  by (induction kvs) (auto simp: dict_remove_def)

lemma well_formed_stage_children:
  "well_formed_stage kvs \<Longrightarrow> map_of kvs ''children'' = Some g \<Longrightarrow> truthy g \<Longrightarrow>
     \<exists>cs. g = JList cs \<and> well_formed_children cs"
  by (induction kvs) (auto split: if_splits json.splits)

lemma package_children_error:
  "well_formed_children cs \<Longrightarrow> package_children cs message = Inl e \<Longrightarrow>
     \<exists>key. e = unsupported key"
proof (induction cs message arbitrary: e rule: package_children.induct)
  case (1 message)
  then show ?case by simp
next
  case (2 child rest message)
  show ?case
  proof (cases "truthy child")
    case False
    with 2 show ?thesis by (simp add: package_children_Cons)
  next
    case True
    with "2.prems" obtain kvs g where child: "child = JDict kvs" "map_of kvs ''children'' = Some g"
      and wf: "well_formed_stage kvs" "well_formed_children rest"
      by (cases child) auto
    have pop: "py_pop child ''children'' = Inr (g, dict_remove ''children'' kvs)"
      using child by simp
    have wf': "well_formed_stage (dict_remove ''children'' kvs)"
      using wf(1) by (rule well_formed_stage_dict_remove)
    have inner: "\<exists>key. e' = unsupported key" if "package_children_of g = Inl e'" for e'
    proof (cases "truthy g")
      case False
      with that show ?thesis by (simp add: package_children_of_def)
    next
      case g: True
      then obtain gs where gs: "g = JList gs" "well_formed_children gs"
        using well_formed_stage_children [OF wf(1) child(2)] by blast
      then have iter: "py_iter g = Inr gs" by simp
      from that g iter have "package_children gs empty_graph = Inl e'"
        by (simp add: package_children_of_def)
      with "2.IH"(1) [OF True pop refl g iter gs(2)] show ?thesis by simp
    qed
    show ?thesis
    proof (cases "package_child child")
      case (Inl e')
      with True "2.prems"(2) have "e = e'" by (simp add: package_children_Cons)
      with Inl pop wf' inner show ?thesis
        by (auto simp: package_child_alt split: sum.splits dest: package_current_dataset_error)
    next
      case (Inr x)
      with True "2.prems"(2) have rest: "package_children rest (add_child x message) = Inl e"
        by (simp add: package_children_Cons)
      from Inr pop obtain g0 where g0: "(if truthy g then
            (case py_iter g of Inl e \<Rightarrow> Inl e
             | Inr grandsons \<Rightarrow> package_children grandsons empty_graph)
          else Inr empty_graph) = Inr g0"
        and x: "package_current_dataset (dict_remove ''children'' kvs) g0 = Inr x"
        by (auto simp: package_child_def split: sum.splits)
      from "2.IH"(2) [OF True pop refl g0 x wf(2) rest] show ?thesis .
    qed
  qed
qed

text \<open>
  C7, as the code has it: generic dispatch fails exactly on a dict and on a list under the
  key \<^verbatim>\<open>"operations"\<close>, with the \<^verbatim>\<open>ValueError\<close> whose message names the key; and on an
  input of the serialized shape (see \<open>well_formed_stage\<close>) this is the only error the
  packager raises. (Outside that shape other exceptions are reachable.)
\<close>

theorem only_value_error:
  "(package_parameter key val message = Inl e \<longleftrightarrow>
      e = unsupported key \<and> (isinstance_dict val \<or> isinstance_list val \<and> key = ''operations'')) \<and>
   (well_formed_stage dataset_dict \<and> package_dataset_graph dataset_dict = Inl e' \<longrightarrow>
      (\<exists>key'. e' = unsupported key'))"
proof (intro conjI impI)
  show "package_parameter key val message = Inl e \<longleftrightarrow>
      e = unsupported key \<and> (isinstance_dict val \<or> isinstance_list val \<and> key = ''operations'')"
    by (rule package_parameter_error)
next
  assume a: "well_formed_stage dataset_dict \<and> package_dataset_graph dataset_dict = Inl e'"
  then have wf: "well_formed_stage dataset_dict"
    and err: "package_dataset_graph dataset_dict = Inl e'"
    by simp_all
  from err obtain cv where cv: "map_of dataset_dict ''children'' = Some cv"
    by (auto simp: package_dataset_graph_def split: option.splits)
  have wf': "well_formed_stage (dict_remove ''children'' dataset_dict)"
    using wf by (rule well_formed_stage_dict_remove)
  show "\<exists>key'. e' = unsupported key'"
  proof (cases "truthy cv")
    case False
    with cv err wf' show ?thesis
      by (auto simp: package_dataset_graph_def dest: package_current_dataset_error)
  next
    case True
    then obtain cs where cs: "cv = JList cs" "well_formed_children cs"
      using well_formed_stage_children [OF wf cv] by blast
    with cv err wf' True show ?thesis
      by (auto simp: package_dataset_graph_def split: sum.splits
          dest: package_current_dataset_error package_children_error)
  qed
qed

theorem only_value_error_witness:
  "package_parameter ''cfg'' (JDict [(''x'', JInt 1)]) empty_parameter =
     Inl (ValueError ''Parameter cfg is not supported in event package.'') \<and>
   well_formed_stage
     [(''children'', JList [JDict [(''children'', JList []), (''cfg'', JDict [(''x'', JInt 1)])]])] \<and>
   (\<exists>key. package_dataset_graph
      [(''children'', JList [JDict [(''children'', JList []), (''cfg'', JDict [(''x'', JInt 1)])]])]
      = Inl (unsupported key))"
proof -
  let ?d = "[(''children'',
      JList [JDict [(''children'', JList []), (''cfg'', JDict [(''x'', JInt 1)])]])]"
  have 1: "package_parameter ''cfg'' (JDict [(''x'', JInt 1)]) empty_parameter =
     Inl (ValueError ''Parameter cfg is not supported in event package.'')"
    using only_value_error [of "''cfg''" "JDict [(''x'', JInt 1)]" empty_parameter
        "unsupported ''cfg''"]
    by (simp add: unsupported_def)
  have wf: "well_formed_stage ?d" by simp
  have "\<exists>e. package_dataset_graph ?d = Inl e"
    by (simp add: package_dataset_graph_def package_children_Cons package_child_def
        dict_remove_def package_parameter_def)
  then obtain e where e: "package_dataset_graph ?d = Inl e" by blast
  with wf only_value_error [of _ _ _ _ ?d e] have "\<exists>key. e = unsupported key" by blast
  with 1 wf e show ?thesis by auto
qed

text \<open>
  The claim C7 as stated fails: \<^verbatim>\<open>{"children": [], "operations": [null]}\<close> raises
  \<^verbatim>\<open>AttributeError\<close>, which is not the \<^verbatim>\<open>ValueError\<close> of line 128.
\<close>

theorem attribute_error_counterexample:
  "package_dataset_graph [(''children'', JList []), (''operations'', JList [JNull])]
     = Inl AttributeError"
  by (simp add: package_dataset_graph_def dict_remove_def package_enhancement_operation_def)

subsection \<open>The effect on the input\<close>

lemma package_children_st_eq:
  "package_children_st cs message =
     (case package_children cs message of
        Inl e \<Rightarrow> Inl e
      | Inr message' \<Rightarrow> Inr (map after_pop cs, message'))"
proof (induction cs message rule: package_children_st.induct)
  case (1 message)
  then show ?case by simp
next
  case (2 child rest message)
  show ?case
  proof (cases "truthy child")
    case False
    with 2 show ?thesis
      by (cases child) (simp_all add: package_children_Cons dict_remove_def split: sum.splits)
  next
    case True
    show ?thesis
    proof (cases "py_pop child ''children''")
      case (Inl e)
      with True show ?thesis by (simp add: package_child_alt package_children_Cons)
    next
      case (Inr popped)
      obtain grandson child' where popped: "popped = (grandson, child')" by (cases popped)
      have child: "after_pop child = JDict child'"
        using Inr popped by (cases child) (auto split: option.splits)
      have inner: "(if truthy grandson then
                      (case py_iter grandson of
                         Inl e \<Rightarrow> Inl e
                       | Inr grandsons \<Rightarrow>
                           (case package_children_st grandsons empty_graph of
                              Inl e \<Rightarrow> Inl e
                            | Inr (grandsons', child_graph_message) \<Rightarrow> Inr child_graph_message))
                    else Inr empty_graph) = package_children_of grandson"
        using "2.IH"(1) [OF True Inr popped [symmetric]]
        by (auto simp: package_children_of_def split: sum.splits)
      show ?thesis
      proof (cases "package_children_of grandson")
        case (Inl e)
        with True Inr popped inner show ?thesis
          by (simp add: package_child_alt package_children_Cons)
      next
        case g0: (Inr g0)
        show ?thesis
        proof (cases "package_current_dataset child' g0")
          case (Inl e)
          with True Inr popped inner g0 show ?thesis
            by (simp add: package_child_alt package_children_Cons)
        next
          case g1: (Inr g1)
          have "package_children_st rest (add_child g1 message) =
              (case package_children rest (add_child g1 message) of
                 Inl e \<Rightarrow> Inl e
               | Inr message' \<Rightarrow> Inr (map after_pop rest, message'))"
            using "2.IH"(2) [OF True Inr popped [symmetric] _ g1] inner g0 by simp
          with True Inr popped inner g0 g1 child show ?thesis
            by (simp add: package_child_alt package_children_Cons split: sum.splits)
        qed
      qed
    qed
  qed
qed

text \<open>
  C8, as the code has it: a successful walk has removed the \<^verbatim>\<open>"children"\<close> key from every
  dict among the children it was given and from \<^verbatim>\<open>dataset_dict\<close>, and has changed nothing
  else in them; the message is the one the packager returns.
\<close>

theorem children_key_removed:
  "(package_children_st cs message = Inr (cs', message') \<longrightarrow>
      cs' = map after_pop cs \<and> package_children cs message = Inr message') \<and>
   (package_dataset_graph_st dataset_dict = Inr (dataset_dict', g) \<longrightarrow>
      dataset_dict' = dict_remove ''children'' dataset_dict \<and>
      package_dataset_graph dataset_dict = Inr g)"
proof (intro conjI impI)
  assume a: "package_children_st cs message = Inr (cs', message')"
  then show "cs' = map after_pop cs" "package_children cs message = Inr message'"
    by (auto simp: package_children_st_eq split: sum.splits)
next
  assume a: "package_dataset_graph_st dataset_dict = Inr (dataset_dict', g)"
  have none: "map_of dataset_dict ''children'' = None \<Longrightarrow>
      dict_remove ''children'' dataset_dict = dataset_dict"
    by (auto simp: dict_remove_def map_of_eq_None_iff filter_id_conv image_iff)
  show "dataset_dict' = dict_remove ''children'' dataset_dict"
  proof (cases "map_of dataset_dict ''children''")
    case None
    with a none show ?thesis by (simp add: package_dataset_graph_st_def)
  next
    case (Some children_value)
    with a show ?thesis
      by (auto simp: package_dataset_graph_st_def split: sum.splits)
  qed
  from a show "package_dataset_graph dataset_dict = Inr g"
    by (auto simp: package_dataset_graph_st_def package_dataset_graph_def package_children_st_eq
        split: option.splits sum.splits if_splits)
qed

theorem children_key_removed_witness:
  "\<exists>message' g.
     package_children_st
       [JNull, JDict [(''children'', JList []), (''op'', JStr ''Source'')]] empty_graph =
       Inr ([JNull, JDict [(''op'', JStr ''Source'')]], message') \<and>
     package_dataset_graph_st [(''op'', JStr ''Map''), (''children'', JList [])] =
       Inr ([(''op'', JStr ''Map'')], g)"
proof -
  let ?cs = "[JNull, JDict [(''children'', JList []), (''op'', JStr ''Source'')]]"
  let ?d = "[(''op'', JStr ''Map''), (''children'', JList [])]"
  have "\<exists>cs' message'. package_children_st ?cs empty_graph = Inr (cs', message')"
    by (simp add: dict_remove_def package_parameter_def)
  then obtain cs' message' where 1: "package_children_st ?cs empty_graph = Inr (cs', message')"
    by blast
  have "\<exists>d' g. package_dataset_graph_st ?d = Inr (d', g)"
    by (simp add: package_dataset_graph_st_def dict_remove_def package_parameter_def)
  then obtain d' g where 2: "package_dataset_graph_st ?d = Inr (d', g)" by blast
  from children_key_removed [of ?cs empty_graph cs' message' ?d d' g] 1 2
  have "cs' = [JNull, JDict [(''op'', JStr ''Source'')]]" "d' = [(''op'', JStr ''Map'')]"
    by (simp_all add: dict_remove_def)
  with 1 2 show ?thesis by blast
qed

text \<open>
  The claim C8 as stated fails: the walk changes the child dict
  \<^verbatim>\<open>{"children": [], "op": "Source"}\<close> into \<^verbatim>\<open>{"op": "Source"}\<close>.
\<close>

theorem child_dict_mutated_counterexample:
  "package_children_st [JDict [(''children'', JList []), (''op'', JStr ''Source'')]] empty_graph =
     Inr ([JDict [(''op'', JStr ''Source'')]],
          DatasetGraph
            [DatasetGraph [] (empty_parameter\<lparr>mapStr := [''op'' \<mapsto> ''Source'']\<rparr>) [] None]
            empty_parameter [] None)"
  by (simp add: dict_remove_def package_parameter_def empty_graph_def set_parameter_def
      add_child_def empty_parameter_def)

end
